theory Spec2Isabelle
  imports Main "HOL-Library.AList"
begin

section \<open>JavaScript values\<close>

text \<open>
  The values that flow through the form hook and the user store. Numbers are restricted to
  integers (no fraction, no NaN); a string is a list of code units, restricted to the range
  0..255 that \<^typ>\<open>char\<close> covers; an object is its list of own properties in insertion order.
  The functions that a program writes are not values of this type: the rules and callbacks
  of the hook are HOL functions given as parameters. The functions that every plain object
  inherits from \<open>Object.prototype\<close> are values, \<open>JBuiltin\<close> with the name of the member,
  because reading a property of an object can return one.
\<close>

datatype jsval =
    JUndefined
  | JNull
  | JBool bool
  | JNum int
  | JStr string
  | JArr "jsval list"
  | JObj "(string \<times> jsval) list"
  | JBuiltin string

type_synonym obj = "(string \<times> jsval) list"

text \<open>ToBoolean: what \<open>if (v)\<close>, \<open>!v\<close> and \<open>a || b\<close> test.\<close>

fun truthy :: "jsval \<Rightarrow> bool" where
  "truthy JUndefined = False"
| "truthy JNull = False"
| "truthy (JBool b) = b"
| "truthy (JNum n) = (n \<noteq> 0)"
| "truthy (JStr s) = (s \<noteq> [])"
| "truthy (JArr xs) = True"
| "truthy (JObj kvs) = True"
| "truthy (JBuiltin n) = True"

text \<open>\<open>typeof v === 'string'\<close>.\<close>

fun is_string :: "jsval \<Rightarrow> bool" where
  "is_string (JStr s) = True"
| "is_string v = False"

text \<open>
  \<open>a === b\<close>. On arrays and objects JavaScript compares references, which a model of values
  does not have: two of them are taken as distinct. A built-in function is the same object
  each time it is read. The identifiers compared by the store are strings.
\<close>

fun strict_eq :: "jsval \<Rightarrow> jsval \<Rightarrow> bool" where
  "strict_eq JUndefined JUndefined = True"
| "strict_eq JNull JNull = True"
| "strict_eq (JBool a) (JBool b) = (a = b)"
| "strict_eq (JNum a) (JNum b) = (a = b)"
| "strict_eq (JStr a) (JStr b) = (a = b)"
| "strict_eq (JBuiltin a) (JBuiltin b) = (a = b)"
| "strict_eq a b = False"

text \<open>
  The objects of this program are plain objects, made by \<open>{}\<close>, by an object literal or by
  \<open>JSON.parse\<close>: their prototype is \<open>Object.prototype\<close>, whose members they inherit. These
  are the names of its members.
\<close>

definition Object_prototype_names :: "string list" where
  "Object_prototype_names =
     [''constructor'', ''hasOwnProperty'', ''isPrototypeOf'', ''propertyIsEnumerable'',
      ''toLocaleString'', ''toString'', ''valueOf'', ''__defineGetter__'', ''__defineSetter__'',
      ''__lookupGetter__'', ''__lookupSetter__'', ''__proto__'']"

text \<open>
  The value of an inherited member: a built-in function, except that \<open>__proto__\<close> reads as
  \<open>Object.prototype\<close> itself, an object with no enumerable property of its own.
\<close>

definition inherited :: "string \<Rightarrow> jsval" where
  "inherited k = (if k = ''__proto__'' then JObj [] else JBuiltin k)"

text \<open>The \<open>length\<close> of a built-in function, the number of its parameters.\<close>

definition builtin_length :: "string \<Rightarrow> int" where
  "builtin_length n =
     (if n \<in> set [''toLocaleString'', ''toString'', ''valueOf''] then 0
      else if n \<in> set [''__defineGetter__'', ''__defineSetter__''] then 2
      else 1)"

text \<open>
  \<open>o[k]\<close> reads the own property if there is one, then the member of \<open>Object.prototype\<close>
  of that name if there is one, and is \<open>undefined\<close> otherwise.
\<close>

definition obj_get :: "obj \<Rightarrow> string \<Rightarrow> jsval" where
  "obj_get ob k =
     (case map_of ob k of
        Some v \<Rightarrow> v
      | None \<Rightarrow> if k \<in> set Object_prototype_names then inherited k else JUndefined)"

text \<open>
  \<open>o[k] = v\<close> on a fresh copy, as in \<open>{...o, [k]: v}\<close>: an existing property keeps its
  place and takes the new value, a new one goes last.
\<close>

definition obj_set :: "obj \<Rightarrow> string \<Rightarrow> jsval \<Rightarrow> obj" where
  "obj_set ob k v = AList.update k v ob"

text \<open>An exception object: its \<open>name\<close>, its \<open>message\<close>, and the further properties it carries.\<close>

datatype js_error = JsError (err_name: string) (err_message: string) (err_props: obj)

text \<open>\<open>new Error(msg)\<close> has a name and a message and carries nothing else.\<close>

definition new_Error :: "string \<Rightarrow> js_error" where
  "new_Error msg = JsError ''Error'' msg []"

text \<open>Calling something that is not a function, such as \<open>(5).trim()\<close>.\<close>

definition TypeError :: "string \<Rightarrow> js_error" where
  "TypeError what = JsError ''TypeError'' (what @ '' is not a function'') []"

text \<open>Running \<open>for ... of\<close> over something that is not iterable, such as a function.\<close>

definition TypeError_not_iterable :: "string \<Rightarrow> js_error" where
  "TypeError_not_iterable what = JsError ''TypeError'' (what @ '' is not iterable'') []"

section \<open>Strings and regular expressions\<close>

text \<open>
  The class \<open>\s\<close> of a JavaScript regular expression, which is also what \<open>trim\<close> removes:
  tab, line feed, vertical tab, form feed, carriage return, space and no-break space
  (the members below code unit 256).
\<close>

definition is_space :: "char \<Rightarrow> bool" where
  "is_space c = (c \<in> set [CHR 0x09, CHR 0x0A, CHR 0x0B, CHR 0x0C, CHR 0x0D, CHR 0x20, CHR 0xA0])"

text \<open>The class \<open>\d\<close>, the same as \<open>[0-9]\<close>.\<close>

definition is_digit :: "char \<Rightarrow> bool" where
  "is_digit c = (c \<in> set ''0123456789'')"

definition trim :: "string \<Rightarrow> string" where
  "trim s = rev (dropWhile is_space (rev (dropWhile is_space s)))"

text \<open>
  A regular expression is modelled by the function that, given the input, returns what is
  left of it after each way of matching a prefix. \<open>/^r$/.test(s)\<close> holds when some way of
  matching leaves nothing.
\<close>

type_synonym rx = "string \<Rightarrow> string list"

definition rx_class :: "(char \<Rightarrow> bool) \<Rightarrow> rx" where
  "rx_class p s = (case s of [] \<Rightarrow> [] | c # cs \<Rightarrow> if p c then [cs] else [])"

definition rx_char :: "char \<Rightarrow> rx" where
  "rx_char c = rx_class (\<lambda>x. x = c)"

definition rx_seq :: "rx \<Rightarrow> rx \<Rightarrow> rx" where
  "rx_seq a b s = concat (map b (a s))"

definition rx_opt :: "rx \<Rightarrow> rx" where
  "rx_opt a s = a s @ [s]"

text \<open>\<open>[...]+\<close>: one or more characters of a class, the longest match first.\<close>

fun rx_plus :: "(char \<Rightarrow> bool) \<Rightarrow> rx" where
  "rx_plus p [] = []"
| "rx_plus p (c # cs) = (if p c then rx_plus p cs @ [cs] else [])"

text \<open>\<open>[...]{n}\<close>: exactly \<open>n\<close> characters of a class.\<close>

fun rx_rep :: "nat \<Rightarrow> (char \<Rightarrow> bool) \<Rightarrow> rx" where
  "rx_rep 0 p s = [s]"
| "rx_rep (Suc n) p [] = []"
| "rx_rep (Suc n) p (c # cs) = (if p c then rx_rep n p cs else [])"

definition rx_test :: "rx \<Rightarrow> string \<Rightarrow> bool" where
  "rx_test r s = ([] \<in> set (r s))"

section \<open>UserService\<close>

text \<open>\<open>/^[^\s@]+@[^\s@]+\.[^\s@]+$/\<close>\<close>

definition emailRegex :: rx where
  "emailRegex =
     rx_seq (rx_plus (\<lambda>c. \<not> is_space c \<and> c \<noteq> CHR ''@''))
    (rx_seq (rx_char CHR ''@'')
    (rx_seq (rx_plus (\<lambda>c. \<not> is_space c \<and> c \<noteq> CHR ''@''))
    (rx_seq (rx_char CHR ''.'')
            (rx_plus (\<lambda>c. \<not> is_space c \<and> c \<noteq> CHR ''@'')))))"

text \<open>\<open>isValidEmail\<close>; \<open>validateUser\<close> calls it on strings only.\<close>

definition isValidEmail :: "string \<Rightarrow> bool" where
  "isValidEmail email = rx_test emailRegex email"

text \<open>\<open>/^(\+351)?[0-9]{9}$/\<close>, the \<open>phoneRegex\<close> of \<open>isValidPhone\<close>.\<close>

definition isValidPhone_phoneRegex :: rx where
  "isValidPhone_phoneRegex =
     rx_seq (rx_opt (rx_seq (rx_char CHR ''+'') (rx_seq (rx_char CHR ''3'')
                    (rx_seq (rx_char CHR ''5'') (rx_char CHR ''1'')))))
            (rx_rep 9 is_digit)"

text \<open>
  \<open>isValidPhone\<close>: \<open>phone.replace(/\s/g, '')\<close> drops every character of the class \<open>\s\<close>,
  then the pattern is tested. \<open>validateUser\<close> calls it on strings only.
\<close>

definition isValidPhone :: "string \<Rightarrow> bool" where
  "isValidPhone phone = rx_test isValidPhone_phoneRegex (filter (\<lambda>c. \<not> is_space c) phone)"

text \<open>
  The value of \<open>!v?.trim()\<close>: the optional call gives \<open>undefined\<close> on \<open>undefined\<close> and
  \<open>null\<close>, the trimmed string on a string, and on any other value \<open>v.trim\<close> is not a
  function and the call throws.
\<close>

definition not_opt_trim :: "jsval \<Rightarrow> js_error + bool" where
  "not_opt_trim v =
     (case v of
        JUndefined \<Rightarrow> Inr True
      | JNull \<Rightarrow> Inr True
      | JStr s \<Rightarrow> Inr (trim s = [])
      | _ \<Rightarrow> Inl (TypeError ''trim''))"

text \<open>
  The value of \<open>!v?.length\<close>: a string and an array have their length, a built-in
  function the number of its parameters, an object its property \<open>length\<close> if any, every
  other value has none.
\<close>

definition not_opt_length :: "jsval \<Rightarrow> bool" where
  "not_opt_length v =
     (case v of
        JStr s \<Rightarrow> s = []
      | JArr xs \<Rightarrow> xs = []
      | JObj kvs \<Rightarrow> \<not> truthy (obj_get kvs ''length'')
      | JBuiltin n \<Rightarrow> builtin_length n = 0
      | _ \<Rightarrow> True)"

record validation =
  isValid :: bool
  errors :: obj

definition msg_name :: string where
  "msg_name = ''Nome '' @ [CHR 0xE9] @ '' obrigat'' @ [CHR 0xF3] @ ''rio''"

definition msg_email_required :: string where
  "msg_email_required = ''Email '' @ [CHR 0xE9] @ '' obrigat'' @ [CHR 0xF3] @ ''rio''"

definition msg_email_format :: string where
  "msg_email_format = ''Email deve ter formato v'' @ [CHR 0xE1] @ ''lido''"

definition msg_phone_required :: string where
  "msg_phone_required = ''Telefone '' @ [CHR 0xE9] @ '' obrigat'' @ [CHR 0xF3] @ ''rio''"

definition msg_phone_format :: string where
  "msg_phone_format = ''Telefone deve ter formato v'' @ [CHR 0xE1] @ ''lido''"

definition msg_userTypes :: string where
  "msg_userTypes = ''Selecione pelo menos um tipo de utilizador''"

text \<open>
  The string held by a value that is one. \<open>validateUser\<close> passes \<open>userData.email\<close> and
  \<open>userData.phone\<close> on to the format checks only in the \<open>else\<close> branch of
  \<open>!v?.trim()\<close>, where the value is a string that is not blank.
\<close>

fun str_of :: "jsval \<Rightarrow> string" where
  "str_of (JStr s) = s"
| "str_of v = []"

definition validateUser :: "obj \<Rightarrow> js_error + validation" where
  "validateUser userData =
     (case not_opt_trim (obj_get userData ''name'') of
        Inl e \<Rightarrow> Inl e
      | Inr no_name \<Rightarrow>
     (let errors1 = (if no_name then obj_set [] ''name'' (JStr msg_name) else []) in
      case not_opt_trim (obj_get userData ''email'') of
        Inl e \<Rightarrow> Inl e
      | Inr no_email \<Rightarrow>
     (let errors2 =
            (if no_email then obj_set errors1 ''email'' (JStr msg_email_required)
             else if \<not> isValidEmail (str_of (obj_get userData ''email''))
               then obj_set errors1 ''email'' (JStr msg_email_format)
             else errors1) in
      case not_opt_trim (obj_get userData ''phone'') of
        Inl e \<Rightarrow> Inl e
      | Inr no_phone \<Rightarrow>
     (let errors3 =
            (if no_phone then obj_set errors2 ''phone'' (JStr msg_phone_required)
             else if \<not> isValidPhone (str_of (obj_get userData ''phone''))
               then obj_set errors2 ''phone'' (JStr msg_phone_format)
             else errors2);
          errors4 =
            (if not_opt_length (obj_get userData ''userTypes'')
             then obj_set errors3 ''userTypes'' (JStr msg_userTypes)
             else errors3)
      in Inr \<lparr>isValid = (errors4 = []), errors = errors4\<rparr>))))"

section \<open>JSON.stringify\<close>

definition digit_char :: "nat \<Rightarrow> char" where
  "digit_char n = ''0123456789abcdef'' ! (n mod 16)"

fun show_nat :: "nat \<Rightarrow> string" where
  "show_nat n = (if n < 10 then [digit_char n] else show_nat (n div 10) @ [digit_char (n mod 10)])"

definition show_int :: "int \<Rightarrow> string" where
  "show_int i = (if i < 0 then CHR ''-'' # show_nat (nat (- i)) else show_nat (nat i))"

text \<open>
  A character inside a JSON string: the quote and the backslash are escaped, the control
  characters have their short escape or \<open>\u00XX\<close>, every other character stands for itself.
\<close>

definition json_char :: "char \<Rightarrow> string" where
  "json_char c =
     (if c = CHR 0x22 then [CHR 0x5C, CHR 0x22]
      else if c = CHR 0x5C then [CHR 0x5C, CHR 0x5C]
      else if c = CHR 0x08 then [CHR 0x5C, CHR ''b'']
      else if c = CHR 0x09 then [CHR 0x5C, CHR ''t'']
      else if c = CHR 0x0A then [CHR 0x5C, CHR ''n'']
      else if c = CHR 0x0C then [CHR 0x5C, CHR ''f'']
      else if c = CHR 0x0D then [CHR 0x5C, CHR ''r'']
      else if (of_char c :: nat) < 32
        then [CHR 0x5C, CHR ''u'', CHR ''0'', CHR ''0'',
              digit_char (of_char c div 16), digit_char (of_char c mod 16)]
      else [c])"

definition json_quote :: "string \<Rightarrow> string" where
  "json_quote s = [CHR 0x22] @ concat (map json_char s) @ [CHR 0x22]"

fun join :: "string \<Rightarrow> string list \<Rightarrow> string" where
  "join sep [] = []"
| "join sep [x] = x"
| "join sep (x # y # ys) = x @ sep @ join sep (y # ys)"

text \<open>
  \<open>JSON.stringify(v)\<close> for a value inside an array or an object: \<open>undefined\<close> and a function
  are \<open>null\<close> as an array element, and a property whose value is one of them is left out.
\<close>

fun no_json :: "jsval \<Rightarrow> bool" where
  "no_json JUndefined = True"
| "no_json (JBuiltin n) = True"
| "no_json v = False"


fun JSON_stringify :: "jsval \<Rightarrow> string" where
  "JSON_stringify JUndefined = ''null''"
| "JSON_stringify JNull = ''null''"
| "JSON_stringify (JBool b) = (if b then ''true'' else ''false'')"
| "JSON_stringify (JNum n) = show_int n"
| "JSON_stringify (JStr s) = json_quote s"
| "JSON_stringify (JArr xs) = ''['' @ join '','' (map JSON_stringify xs) @ '']''"
| "JSON_stringify (JObj kvs) =
     ''{'' @ join '',''
        (map (\<lambda>kv. json_quote (fst kv) @ '':'' @ JSON_stringify (snd kv))
             (filter (\<lambda>kv. \<not> no_json (snd kv)) kvs)) @ ''}''"
| "JSON_stringify (JBuiltin n) = ''null''"

section \<open>The user store: reducer, persistence, actions\<close>

record store_state =
  users :: "obj list"
  loading :: bool
  error :: jsval
  currentUser :: jsval

datatype action =
    SET_USERS "obj list"
  | ADD_USER obj
  | UPDATE_USER obj
  | DELETE_USER string
  | SET_CURRENT_USER jsval
  | SET_LOADING bool
  | SET_ERROR jsval
  | CLEAR_ERROR

fun userReducer :: "store_state \<Rightarrow> action \<Rightarrow> store_state" where
  "userReducer st (SET_USERS payload) = st\<lparr>users := payload, loading := False\<rparr>"
| "userReducer st (ADD_USER payload) =
     st\<lparr>users := users st @ [payload], loading := False, error := JNull\<rparr>"
| "userReducer st (UPDATE_USER payload) =
     st\<lparr>users := map (\<lambda>u. if strict_eq (obj_get u ''id'') (obj_get payload ''id'')
                              then payload else u) (users st),
        currentUser := JNull, loading := False, error := JNull\<rparr>"
| "userReducer st (DELETE_USER payload) =
     st\<lparr>users := filter (\<lambda>u. \<not> strict_eq (obj_get u ''id'') (JStr payload)) (users st),
        loading := False, error := JNull\<rparr>"
| "userReducer st (SET_CURRENT_USER payload) = st\<lparr>currentUser := payload\<rparr>"
| "userReducer st (SET_LOADING payload) = st\<lparr>loading := payload\<rparr>"
| "userReducer st (SET_ERROR payload) = st\<lparr>error := payload, loading := False\<rparr>"
| "userReducer st CLEAR_ERROR = st\<lparr>error := JNull\<rparr>"

text \<open>
  The provider: the reducer's state and the browser's \<open>localStorage\<close>, a map from keys to
  strings.
\<close>

record provider =
  state :: store_state
  localStorage :: "string \<rightharpoonup> string"

text \<open>
  The effect that depends on \<open>state.users\<close>:
  \<open>if (state.users.length > 0) localStorage.setItem('crud-users', JSON.stringify(state.users))\<close>.
\<close>

definition save_users :: "provider \<Rightarrow> provider" where
  "save_users p =
     (if length (users (state p)) > 0
      then p\<lparr>localStorage :=
               (localStorage p)(''crud-users'' \<mapsto> JSON_stringify (JArr (map JObj (users (state p)))))\<rparr>
      else p)"

text \<open>
  The actions after which \<open>state.users\<close> is a new array, so that the effect runs: the
  spread, \<open>map\<close> and \<open>filter\<close> of the reducer build a new array each time, and the other
  cases keep the array of \<open>...state\<close>.
\<close>

fun new_users_array :: "action \<Rightarrow> bool" where
  "new_users_array (SET_USERS payload) = True"
| "new_users_array (ADD_USER payload) = True"
| "new_users_array (UPDATE_USER payload) = True"
| "new_users_array (DELETE_USER payload) = True"
| "new_users_array a = False"

definition dispatch :: "action \<Rightarrow> provider \<Rightarrow> provider" where
  "dispatch a p =
     (let p' = p\<lparr>state := userReducer (state p) a\<rparr>
      in if new_users_array a then save_users p' else p')"

text \<open>
  The actions. Each returns what it throws, if anything, with the provider as the call
  leaves it: a dispatch made before a \<open>throw\<close> stays made. \<open>newId\<close> stands for the result
  of \<open>UserService.generateId()\<close>, \<open>now\<close> for that of \<open>new Date().toISOString()\<close>, and
  \<open>uid\<close> is the parameter \<open>id\<close>, a string.
\<close>

definition addUser :: "string \<Rightarrow> string \<Rightarrow> obj \<Rightarrow> provider \<Rightarrow> js_error option \<times> provider" where
  "addUser newId now userData p =
     (case validateUser userData of
        Inl e \<Rightarrow> (Some e, p)
      | Inr validation \<Rightarrow>
          if \<not> isValid validation
          then (Some (new_Error ''Validation failed''),
                dispatch (SET_ERROR (JObj (errors validation))) p)
          else (let newUser = obj_set (obj_set userData ''id'' (JStr newId)) ''createdAt'' (JStr now)
                in (None, dispatch (ADD_USER newUser) p)))"

definition updateUser :: "string \<Rightarrow> string \<Rightarrow> obj \<Rightarrow> provider \<Rightarrow> js_error option \<times> provider" where
  "updateUser now uid userData p =
     (case validateUser userData of
        Inl e \<Rightarrow> (Some e, p)
      | Inr validation \<Rightarrow>
          if \<not> isValid validation
          then (Some (new_Error ''Validation failed''),
                dispatch (SET_ERROR (JObj (errors validation))) p)
          else (let updatedUser = obj_set (obj_set userData ''id'' (JStr uid)) ''updatedAt'' (JStr now)
                in (None, dispatch (UPDATE_USER updatedUser) p)))"

definition deleteUser :: "string \<Rightarrow> provider \<Rightarrow> js_error option \<times> provider" where
  "deleteUser uid p = (None, dispatch (DELETE_USER uid) p)"

section \<open>The validation rules of the form hook\<close>

text \<open>
  A rule takes the field's value and all the values, and returns \<open>null\<close> or a message; it is
  a JavaScript function, so it may also throw.
\<close>

type_synonym rule = "jsval \<Rightarrow> obj \<Rightarrow> js_error + jsval"

definition msg_required :: string where
  "msg_required = ''Este campo '' @ [CHR 0xE9] @ '' obrigat'' @ [CHR 0xF3] @ ''rio''"

definition msg_phone_invalid :: string where
  "msg_phone_invalid = ''Telefone inv'' @ [CHR 0xE1] @ ''lido''"

text \<open>\<open>validationRules.required\<close>\<close>

definition required :: "jsval \<Rightarrow> jsval" where
  "required v =
     (if \<not> truthy v \<or> (is_string v \<and> trim (str_of v) = []) then JStr msg_required else JNull)"

text \<open>\<open>/^[\d\s\-\+\(\)]+$/\<close>, the \<open>phoneRegex\<close> of \<open>validationRules.phone\<close>.\<close>

definition phone_phoneRegex :: rx where
  "phone_phoneRegex =
     rx_plus (\<lambda>c. is_digit c \<or> is_space c \<or> c = CHR ''-'' \<or> c = CHR ''+''
                   \<or> c = CHR ''('' \<or> c = CHR '')'')"

text \<open>
  \<open>validationRules.phone\<close>: \<open>value.replace(/\D/g, '')\<close> keeps the digits; on a truthy value
  that is not a string \<open>value.replace\<close> is not a function.
\<close>

definition phone :: "jsval \<Rightarrow> js_error + jsval" where
  "phone v =
     (if \<not> truthy v then Inr JNull
      else case v of
        JStr s \<Rightarrow>
          (let cleanPhone = filter is_digit s
           in Inr (if length cleanPhone \<ge> 10 \<and> rx_test phone_phoneRegex s
                   then JNull else JStr msg_phone_invalid))
      | _ \<Rightarrow> Inl (TypeError ''replace''))"

section \<open>The form hook\<close>

record form_state =
  form_values :: obj
  form_errors :: obj
  form_touched :: obj
  isSubmitting :: bool

text \<open>\<open>validationRules\<close>: the fields that have rules, in the order of \<open>Object.keys\<close>.\<close>

type_synonym rules = "(string \<times> rule list) list"

definition useForm :: "obj \<Rightarrow> form_state" where
  "useForm initialValues =
     \<lparr>form_values = initialValues, form_errors = [], form_touched = [], isSubmitting = False\<rparr>"

definition setValue :: "string \<Rightarrow> jsval \<Rightarrow> form_state \<Rightarrow> form_state" where
  "setValue name v st =
     (let st1 = st\<lparr>form_values := obj_set (form_values st) name v\<rparr>
      in if truthy (obj_get (form_errors st) name)
         then st1\<lparr>form_errors := obj_set (form_errors st1) name JNull\<rparr>
         else st1)"

text \<open>
  The loop \<open>for (const rule of rules)\<close> of \<open>validateField\<close> and \<open>validateForm\<close>: the
  first truthy result, if any; a rule that throws ends the loop with its exception.
\<close>

fun first_error :: "rule list \<Rightarrow> jsval \<Rightarrow> obj \<Rightarrow> js_error + jsval option" where
  "first_error [] v vs = Inr None"
| "first_error (r # rs) v vs =
     (case r v vs of
        Inl ex \<Rightarrow> Inl ex
      | Inr e \<Rightarrow> if truthy e then Inr (Some e) else first_error rs v vs)"

text \<open>
  \<open>validationRules[name]\<close>: the field's own list of rules; or, \<open>validationRules\<close> being a
  plain object, the member of \<open>Object.prototype\<close> of that name, which is truthy and not
  iterable; or \<open>undefined\<close>.
\<close>

datatype rules_read = OwnRules "rule list" | InheritedMember | NoRules

definition rules_get :: "rules \<Rightarrow> string \<Rightarrow> rules_read" where
  "rules_get validationRules name =
     (case map_of validationRules name of
        Some rs \<Rightarrow> OwnRules rs
      | None \<Rightarrow> if name \<in> set Object_prototype_names then InheritedMember else NoRules)"

text \<open>
  \<open>validateField\<close> returns the error and records it. With no rules it returns \<open>null\<close>; over
  an inherited member its \<open>for ... of\<close> throws.
\<close>

definition validateField :: "rules \<Rightarrow> string \<Rightarrow> jsval \<Rightarrow> form_state \<Rightarrow> js_error + jsval \<times> form_state" where
  "validateField validationRules name v st =
     (case rules_get validationRules name of
        NoRules \<Rightarrow> Inr (JNull, st)
      | InheritedMember \<Rightarrow> Inl (TypeError_not_iterable ''rules'')
      | OwnRules rs \<Rightarrow>
          (case first_error rs v (form_values st) of
             Inl ex \<Rightarrow> Inl ex
           | Inr (Some e) \<Rightarrow> Inr (e, st\<lparr>form_errors := obj_set (form_errors st) name e\<rparr>)
           | Inr None \<Rightarrow> Inr (JNull, st\<lparr>form_errors := obj_set (form_errors st) name JNull\<rparr>)))"

text \<open>
  A handler returns what it throws, if anything, with the state as the call leaves it.
  \<open>handleBlur\<close> takes the field's name, \<open>e.target.name\<close>.
\<close>

definition handleBlur :: "rules \<Rightarrow> string \<Rightarrow> form_state \<Rightarrow> js_error option \<times> form_state" where
  "handleBlur validationRules name st =
     (let st1 = st\<lparr>form_touched := obj_set (form_touched st) name (JBool True)\<rparr>
      in case rules_get validationRules name of
           NoRules \<Rightarrow> (None, st1)
         | _ \<Rightarrow>
             (case validateField validationRules name (obj_get (form_values st) name) st1 of
                Inl ex \<Rightarrow> (Some ex, st1)
              | Inr (e, st2) \<Rightarrow> (None, st2)))"

text \<open>
  The \<open>forEach\<close> of \<open>validateForm\<close> over the fields that have rules, with its two
  variables \<open>newErrors\<close> and \<open>isValid\<close>.
\<close>

fun validate_fields :: "rules \<Rightarrow> obj \<Rightarrow> obj \<times> bool \<Rightarrow> js_error + obj \<times> bool" where
  "validate_fields [] vs acc = Inr acc"
| "validate_fields ((fieldName, rs) # rest) vs (newErrors, ok) =
     (case first_error rs (obj_get vs fieldName) vs of
        Inl ex \<Rightarrow> Inl ex
      | Inr (Some e) \<Rightarrow> validate_fields rest vs (obj_set newErrors fieldName e, False)
      | Inr None \<Rightarrow> validate_fields rest vs (newErrors, ok))"

definition validateForm :: "rules \<Rightarrow> form_state \<Rightarrow> js_error + bool \<times> form_state" where
  "validateForm validationRules st =
     (case validate_fields validationRules (form_values st) ([], True) of
        Inl ex \<Rightarrow> Inl ex
      | Inr (newErrors, ok) \<Rightarrow> Inr (ok, st\<lparr>form_errors := newErrors\<rparr>))"

definition resetForm :: "obj \<Rightarrow> form_state \<Rightarrow> form_state" where
  "resetForm initialValues st =
     st\<lparr>form_values := initialValues, form_errors := [], form_touched := [], isSubmitting := False\<rparr>"

text \<open>
  What the handler returned by \<open>handleSubmit(onSubmit)\<close> does, in order. \<open>onSubmit\<close> is the
  caller's function: it may change the form (the page calls \<open>resetForm\<close> in it), and the
  promise it returns is fulfilled, rejected (a synchronous \<open>throw\<close> is the same to \<open>await\<close>
  inside \<open>try\<close>) or never settled.
\<close>

datatype settled = Fulfilled | Rejected js_error | Pending

datatype event =
    PreventDefault
  | SetTouched obj
  | SetErrors obj
  | SetIsSubmitting bool
  | OnSubmit obj
  | ConsoleError js_error

type_synonym callback = "obj \<Rightarrow> form_state \<Rightarrow> settled \<times> form_state"

record submission =
  outcome :: settled
  final :: form_state
  trace :: "event list"

definition allTouched :: "rules \<Rightarrow> obj" where
  "allTouched validationRules =
     foldl (\<lambda>acc key. obj_set acc key (JBool True)) [] (map fst validationRules)"

definition handleSubmit :: "rules \<Rightarrow> callback \<Rightarrow> form_state \<Rightarrow> submission" where
  "handleSubmit validationRules onSubmit st =
     (let st1 = st\<lparr>form_touched := allTouched validationRules\<rparr>;
          t1 = [PreventDefault, SetTouched (allTouched validationRules)]
      in case validateForm validationRules st1 of
           Inl ex \<Rightarrow> \<lparr>outcome = Rejected ex, final = st1, trace = t1\<rparr>
         | Inr (ok, st2) \<Rightarrow>
             (let t2 = t1 @ [SetErrors (form_errors st2)]
              in if \<not> ok then \<lparr>outcome = Fulfilled, final = st2, trace = t2\<rparr>
                 else (let st3 = st2\<lparr>isSubmitting := True\<rparr>;
                           t3 = t2 @ [SetIsSubmitting True, OnSubmit (form_values st)]
                       in case onSubmit (form_values st) st3 of
                            (Pending, st4) \<Rightarrow> \<lparr>outcome = Pending, final = st4, trace = t3\<rparr>
                          | (Fulfilled, st4) \<Rightarrow>
                              \<lparr>outcome = Fulfilled, final = st4\<lparr>isSubmitting := False\<rparr>,
                               trace = t3 @ [SetIsSubmitting False]\<rparr>
                          | (Rejected ex, st4) \<Rightarrow>
                              \<lparr>outcome = Fulfilled, final = st4\<lparr>isSubmitting := False\<rparr>,
                               trace = t3 @ [ConsoleError ex, SetIsSubmitting False]\<rparr>)))"

text \<open>\<open>getFieldProps\<close>, without the two handlers it passes along.\<close>

record field_props =
  prop_name :: string
  prop_value :: jsval
  prop_error :: jsval

definition getFieldProps :: "string \<Rightarrow> form_state \<Rightarrow> field_props" where
  "getFieldProps name st =
     \<lparr>prop_name = name,
      prop_value = (if truthy (obj_get (form_values st) name)
                    then obj_get (form_values st) name else JStr []),
      prop_error = (if truthy (obj_get (form_touched st) name)
                    then obj_get (form_errors st) name else JNull)\<rparr>"

section \<open>Statements taken from the specification\<close>

text \<open>
  The specification's description of the store's phone check, in its words: after removing
  the space characters (the class \<open>\s\<close>), an optional literal \<open>+351\<close> followed by exactly nine
  decimal digits.
\<close>

definition store_phone_spec :: "string \<Rightarrow> bool" where
  "store_phone_spec s =
     (let t = filter (\<lambda>c. \<not> is_space c) s
      in (length t = 9 \<and> list_all is_digit t)
       \<or> (take 4 t = ''+351'' \<and> length (drop 4 t) = 9 \<and> list_all is_digit (drop 4 t)))"

text \<open>
  The specification's description of a failed \<open>create\<close>: what is raised is a
  \<open>ValidationError\<close> that carries the mapping from fields to messages.
\<close>

definition raises_ValidationError :: "js_error option \<Rightarrow> obj \<Rightarrow> bool" where
  "raises_ValidationError r m =
     (case r of
        None \<Rightarrow> False
      | Some e \<Rightarrow> err_name e = ''ValidationError'' \<and> JObj m \<in> snd ` set (err_props e))"

section \<open>Example data\<close>

definition example_user :: obj where
  "example_user =
     [(''id'', JStr ''1''), (''name'', JStr ''Augusto Chagas''),
      (''userTypes'', JArr [JStr ''Web Developer'', JStr ''UI/UX Designer'']),
      (''email'', JStr ''augusto.chagas@crud.com''), (''phone'', JStr ''+351 916 534 613''),
      (''createdAt'', JStr ''2025-10-03T00:00:00.000Z'')]"

definition other_user :: obj where
  "other_user =
     [(''id'', JStr ''2''), (''name'', JStr ''Joao Silva''),
      (''userTypes'', JArr [JStr ''Project Manager'']),
      (''email'', JStr ''joao.silva@crud.com''), (''phone'', JStr ''+351 934 123 456''),
      (''createdAt'', JStr ''2025-10-03T00:00:00.000Z'')]"

definition valid_data :: obj where
  "valid_data =
     [(''name'', JStr ''Ana''), (''email'', JStr ''ana@x.com''),
      (''phone'', JStr ''+351911222333''), (''userTypes'', JArr [JStr ''Architect''])]"

definition invalid_data :: obj where
  "invalid_data =
     [(''name'', JStr []), (''email'', JStr ''bad''), (''phone'', JStr ''123''),
      (''userTypes'', JArr [])]"

definition invalid_data_errors :: obj where
  "invalid_data_errors =
     [(''name'', JStr msg_name), (''email'', JStr msg_email_format),
      (''phone'', JStr msg_phone_format), (''userTypes'', JStr msg_userTypes)]"

definition provider_of :: "obj list \<Rightarrow> provider" where
  "provider_of us =
     \<lparr>state = \<lparr>users = us, loading = False, error = JNull, currentUser = JNull\<rparr>,
      localStorage = Map.empty\<rparr>"

definition name_rules :: rules where
  "name_rules = [(''name'', [\<lambda>v vs. Inr (required v)])]"

section \<open>Objects, strings and patterns\<close>

lemma obj_get_set: "obj_get (obj_set ob k v) k' = (if k' = k then v else obj_get ob k')"
  by (simp add: obj_get_def obj_set_def update_conv')

lemma obj_set_not_Nil: "obj_set ob k v \<noteq> []"
  by (cases ob) (auto simp: obj_set_def)

lemma obj_set_keys: "fst ` set (obj_set ob k v) = insert k (fst ` set ob)"
  by (simp add: obj_set_def dom_update)

lemma obj_set_key_cases: "(a, b) \<in> set (obj_set ob k v) \<Longrightarrow> a = k \<or> a \<in> fst ` set ob"
  using obj_set_keys[of ob k v] by (metis fst_conv image_eqI insertE)

lemma obj_set_distinct: "distinct (map fst ob) \<Longrightarrow> distinct (map fst (obj_set ob k v))"
  by (simp add: obj_set_def distinct_update)

lemma strict_eq_JStr: "strict_eq v (JStr s) = (v = JStr s)"
  by (cases v) auto

lemma rx_rep_test: "([] \<in> set (rx_rep n p s)) = (length s = n \<and> list_all p s)"
  by (induction n p s rule: rx_rep.induct) auto

lemma rx_plus_test: "([] \<in> set (rx_plus p s)) = (s \<noteq> [] \<and> list_all p s)"
  by (induction s) auto

lemma rx_char_seq:
  "rx_seq (rx_char a) r s = (case s of [] \<Rightarrow> [] | c # cs \<Rightarrow> if c = a then r cs else [])"
  by (simp add: rx_seq_def rx_char_def rx_class_def split: list.splits)

lemma rx_char_last:
  "rx_char a s = (case s of [] \<Rightarrow> [] | c # cs \<Rightarrow> if c = a then [cs] else [])"
  by (simp add: rx_char_def rx_class_def split: list.splits)

lemma prefix_351:
  "rx_seq (rx_char CHR ''+'') (rx_seq (rx_char CHR ''3'')
      (rx_seq (rx_char CHR ''5'') (rx_char CHR ''1''))) t
   = (if take 4 t = ''+351'' then [drop 4 t] else [])"
  by (auto simp add: rx_char_seq rx_char_last split: list.splits)

lemma phoneRegex_test:
  "rx_test isValidPhone_phoneRegex t =
     ((length t = 9 \<and> list_all is_digit t)
      \<or> (take 4 t = ''+351'' \<and> length (drop 4 t) = 9 \<and> list_all is_digit (drop 4 t)))"
  unfolding rx_test_def isValidPhone_phoneRegex_def
  by (subst rx_seq_def) (auto simp add: rx_opt_def prefix_351 rx_rep_test)

lemma isValidPhone_spec: "isValidPhone s = store_phone_spec s"
  by (simp add: isValidPhone_def store_phone_spec_def phoneRegex_test Let_def)

lemma not_space_digit: "is_digit c \<Longrightarrow> \<not> is_space c"
  by (auto simp: is_digit_def is_space_def)

lemma filter_digit_nospace:
  "filter is_digit (filter (\<lambda>c. \<not> is_space c) s) = filter is_digit s"
  by (induction s) (auto simp: not_space_digit)

lemma filter_all_id: "list_all p xs \<Longrightarrow> filter p xs = xs"
  by (induction xs) auto

section \<open>The store's phone check\<close>

text \<open>
  Claim C6. The store's record-level phone check accepts a string if and only if, after
  removing all space characters, it consists of an optional literal \<open>+351\<close> prefix followed
  by exactly nine decimal digits; in particular a value with a hyphen or a parenthesis, or
  with ten bare digits, is rejected. The space characters are those of the class \<open>\s\<close>,
  which is what the code removes.
\<close>

theorem C6_isValidPhone_characterised:
  "isValidPhone s = store_phone_spec s
   \<and> (CHR ''-'' \<in> set s \<or> CHR ''('' \<in> set s \<or> CHR '')'' \<in> set s \<longrightarrow> \<not> isValidPhone s)
   \<and> (length s = 10 \<and> list_all is_digit s \<longrightarrow> \<not> isValidPhone s)"
proof (intro conjI impI)
  show "isValidPhone s = store_phone_spec s" by (rule isValidPhone_spec)
next
  let ?t = "filter (\<lambda>c. \<not> is_space c) s"
  assume h: "CHR ''-'' \<in> set s \<or> CHR ''('' \<in> set s \<or> CHR '')'' \<in> set s"
  then obtain c where c: "c \<in> set s" "c = CHR ''-'' \<or> c = CHR ''('' \<or> c = CHR '')''" by blast
  then have ct: "c \<in> set ?t" and nd: "\<not> is_digit c" and n4: "c \<notin> set ''+351''"
    by (auto simp: is_space_def is_digit_def)
  show "\<not> isValidPhone s"
  proof
    assume "isValidPhone s"
    then consider "list_all is_digit ?t" | "take 4 ?t = ''+351''" "list_all is_digit (drop 4 ?t)"
      by (auto simp: isValidPhone_spec store_phone_spec_def Let_def)
    then show False
    proof cases
      case 1 with ct nd show False by (auto simp: list_all_iff)
    next
      case 2
      have "set ?t = set (take 4 ?t) \<union> set (drop 4 ?t)"
        by (metis append_take_drop_id set_append)
      with ct have "c \<in> set (take 4 ?t) \<or> c \<in> set (drop 4 ?t)" by blast
      then show False using 2 n4 nd by (auto simp: list_all_iff)
    qed
  qed
next
  assume h: "length s = 10 \<and> list_all is_digit s"
  then have "filter (\<lambda>c. \<not> is_space c) s = s"
    by (intro filter_all_id) (auto simp: list_all_iff not_space_digit)
  then show "\<not> isValidPhone s" using h
    by (auto simp: isValidPhone_spec store_phone_spec_def Let_def list_all_iff is_digit_def
        dest!: in_set_takeD[of "CHR ''+''"])
qed

theorem C6_isValidPhone_characterised_witness:
  "isValidPhone ''+351 916 534 613'' \<and> store_phone_spec ''+351 916 534 613''
   \<and> isValidPhone ''916534613''
   \<and> CHR ''-'' \<in> set ''916-534-613'' \<and> \<not> isValidPhone ''916-534-613''
   \<and> CHR ''('' \<in> set ''(916)534613'' \<and> \<not> isValidPhone ''(916)534613''
   \<and> length ''9165346130'' = 10 \<and> list_all is_digit ''9165346130''
   \<and> \<not> isValidPhone ''9165346130''"
  using C6_isValidPhone_characterised[of "''+351 916 534 613''"]
    C6_isValidPhone_characterised[of "''916534613''"]
    C6_isValidPhone_characterised[of "''916-534-613''"]
    C6_isValidPhone_characterised[of "''(916)534613''"]
    C6_isValidPhone_characterised[of "''9165346130''"]
  by (simp add: store_phone_spec_def is_space_def is_digit_def)

section \<open>The two phone rules compared\<close>

text \<open>
  Claim C3, as stated: every non-empty string accepted by the store's phone check is also
  accepted by the form's phone rule. It fails on nine bare digits, which the store accepts
  and the form rule, wanting at least ten digits, rejects.
\<close>

theorem C3_store_phone_not_stricter_counterexample:
  "\<not> (''912345678'' \<noteq> [] \<and> isValidPhone ''912345678''
        \<longrightarrow> phone (JStr ''912345678'') = Inr JNull)"
  by (simp add: isValidPhone_spec store_phone_spec_def phone_def is_space_def is_digit_def)

text \<open>
  Claim C3, amended. Among the strings accepted by the store's phone check, the form's
  phone rule accepts exactly those with the \<open>+351\<close> prefix, which are those that contain a
  plus sign; a string of nine bare digits is accepted by the store and rejected by the
  form rule.
\<close>

theorem C3_store_phone_accepted_by_form_iff_prefixed:
  assumes "isValidPhone s"
  shows "(phone (JStr s) = Inr JNull) = (CHR ''+'' \<in> set s)"
proof -
  let ?t = "filter (\<lambda>c. \<not> is_space c) s"
  from assms consider
      (bare) "length ?t = 9" "list_all is_digit ?t"
    | (pref) "take 4 ?t = ''+351''" "length (drop 4 ?t) = 9" "list_all is_digit (drop 4 ?t)"
    by (auto simp: isValidPhone_spec store_phone_spec_def Let_def)
  then show ?thesis
  proof cases
    case bare
    have "filter is_digit s = ?t"
      using filter_digit_nospace[of s] filter_all_id[OF bare(2)] by simp
    then have len: "length (filter is_digit s) = 9" using bare by simp
    have "CHR ''+'' \<notin> set s"
    proof
      assume "CHR ''+'' \<in> set s"
      then have "CHR ''+'' \<in> set ?t" by (simp add: is_space_def)
      with bare(2) show False by (auto simp: list_all_iff is_digit_def)
    qed
    moreover have "phone (JStr s) \<noteq> Inr JNull"
      using len by (auto simp: phone_def Let_def)
    ultimately show ?thesis by simp
  next
    case pref
    have t: "?t = ''+351'' @ drop 4 ?t" using pref(1) by (metis append_take_drop_id)
    have "filter is_digit s = filter is_digit ?t" by (rule filter_digit_nospace[symmetric])
    also have "\<dots> = filter is_digit (''+351'' @ drop 4 ?t)" using t by simp
    also have "\<dots> = ''351'' @ drop 4 ?t"
      using filter_all_id[OF pref(3)] by (simp add: is_digit_def)
    finally have len: "length (filter is_digit s) = 12" using pref(2) by simp
    have plus: "CHR ''+'' \<in> set ?t" by (subst t) simp
    then have ps: "CHR ''+'' \<in> set s" by simp
    then have ne: "s \<noteq> []" by auto
    have cls: "is_digit c \<or> is_space c \<or> c = CHR ''+''" if "c \<in> set s" for c
    proof (cases "is_space c")
      case True then show ?thesis by simp
    next
      case False
      with that have "c \<in> set ?t" by simp
      then have "c \<in> set (''+351'' @ drop 4 ?t)" using t by simp
      then show ?thesis using pref(3) by (auto simp: list_all_iff is_digit_def)
    qed
    have "rx_test phone_phoneRegex s"
      unfolding rx_test_def phone_phoneRegex_def rx_plus_test
      using ne cls by (auto simp: list_all_iff)
    then have "phone (JStr s) = Inr JNull"
      using len ne by (simp add: phone_def Let_def)
    with ps show ?thesis by simp
  qed
qed

theorem C3_store_phone_accepted_by_form_iff_prefixed_witness:
  "isValidPhone ''+351 916 534 613'' \<and> phone (JStr ''+351 916 534 613'') = Inr JNull
   \<and> isValidPhone ''916534613'' \<and> phone (JStr ''916534613'') \<noteq> Inr JNull"
  using C3_store_phone_accepted_by_form_iff_prefixed[of "''+351 916 534 613''"]
    C3_store_phone_accepted_by_form_iff_prefixed[of "''916534613''"]
  by (simp add: isValidPhone_spec store_phone_spec_def is_space_def is_digit_def)

section \<open>The rule \<open>required\<close> and the store's check of \<open>userTypes\<close>\<close>

text \<open>
  Claim C10. The rule \<open>required\<close> returns no error for every truthy value that is not a
  string, the empty array included: \<open>required([])\<close> passes, so a list of rules holding
  \<open>required\<close> alone never rejects an empty selection; the store's record-level validation
  rejects a record whose \<open>userTypes\<close> is the empty array.
\<close>

theorem C10_required_passes_truthy_non_strings:
  "(truthy v \<longrightarrow> \<not> is_string v \<longrightarrow> required v = JNull)
   \<and> required (JArr []) = JNull
   \<and> first_error [\<lambda>x xs. Inr (required x)] (JArr []) vs = Inr None
   \<and> (obj_get d ''userTypes'' = JArr [] \<longrightarrow> validateUser d = Inr r \<longrightarrow>
        \<not> isValid r \<and> obj_get (errors r) ''userTypes'' = JStr msg_userTypes)"
proof (intro conjI impI)
  show "required (JArr []) = JNull" by (simp add: required_def)
  then show "first_error [\<lambda>x xs. Inr (required x)] (JArr []) vs = Inr None" by simp
next
  assume "truthy v" "\<not> is_string v"
  then show "required v = JNull" by (simp add: required_def)
next
  assume h: "obj_get d ''userTypes'' = JArr []" "validateUser d = Inr r"
  from h show "\<not> isValid r"
    by (auto simp: validateUser_def Let_def not_opt_length_def obj_set_not_Nil split: sum.splits)
  from h show "obj_get (errors r) ''userTypes'' = JStr msg_userTypes"
    by (auto simp: validateUser_def Let_def not_opt_length_def obj_get_set split: sum.splits)
qed

theorem C10_required_passes_truthy_non_strings_witness:
  "truthy (JArr [JStr ''Architect'']) \<and> \<not> is_string (JArr [JStr ''Architect''])
   \<and> required (JArr [JStr ''Architect'']) = JNull
   \<and> required (JArr []) = JNull
   \<and> obj_get (obj_set valid_data ''userTypes'' (JArr [])) ''userTypes'' = JArr []
   \<and> validateUser (obj_set valid_data ''userTypes'' (JArr []))
        = Inr \<lparr>isValid = False, errors = [(''userTypes'', JStr msg_userTypes)]\<rparr>
   \<and> obj_get [(''userTypes'', JStr msg_userTypes)] ''userTypes'' = JStr msg_userTypes"
proof -
  have v: "validateUser (obj_set valid_data ''userTypes'' (JArr []))
        = Inr \<lparr>isValid = False, errors = [(''userTypes'', JStr msg_userTypes)]\<rparr>"
    by code_simp
  have g: "obj_get (obj_set valid_data ''userTypes'' (JArr [])) ''userTypes'' = JArr []"
    by (simp add: obj_get_set)
  show ?thesis
    using C10_required_passes_truthy_non_strings[of "JArr [JStr ''Architect'']" "[]"
        "obj_set valid_data ''userTypes'' (JArr [])"
        "\<lparr>isValid = False, errors = [(''userTypes'', JStr msg_userTypes)]\<rparr>"] v g
    by simp
qed

section \<open>The form hook\<close>

lemma first_error_first_failing:
  assumes "\<forall>q\<in>set pre. \<exists>e. q v vs = Inr e \<and> \<not> truthy e"
    and "r v vs = Inr msg" and "truthy msg"
  shows "first_error (pre @ r # post) v vs = Inr (Some msg)"
  using assms by (induction pre) auto

lemma validateForm_touched:
  "validateForm rs (st\<lparr>form_touched := t\<rparr>) =
     (case validateForm rs st of
        Inl ex \<Rightarrow> Inl ex
      | Inr (ok, st') \<Rightarrow> Inr (ok, st'\<lparr>form_touched := t\<rparr>))"
  by (simp add: validateForm_def split: sum.splits prod.splits)

lemma validateForm_isSubmitting:
  "validateForm rs st = Inr (ok, st') \<Longrightarrow> isSubmitting st' = isSubmitting st"
  by (auto simp add: validateForm_def split: sum.splits prod.splits)

text \<open>
  Where the hook does what its comments say (the error is shown only if
  \<open>touched[field] === true\<close>): for a field whose name is not the name of a member of
  \<open>Object.prototype\<close>, the error shown is \<open>null\<close> while the field is not in \<open>touched\<close>,
  whatever \<open>errors\<close> holds, and the recorded error once it is.
\<close>

lemma getFieldProps_error_not_inherited:
  assumes "f \<notin> set Object_prototype_names"
  shows "map_of (form_touched st) f = None \<Longrightarrow> prop_error (getFieldProps f st) = JNull"
    and "map_of (form_touched st) f = Some (JBool True) \<Longrightarrow>
           prop_error (getFieldProps f st) = obj_get (form_errors st) f"
  using assms by (simp_all add: getFieldProps_def obj_get_def)

text \<open>
  After \<open>handleBlur\<close> on a field that has rules of its own, the first of which to fail
  returns the message \<open>msg\<close>, the field is touched and \<open>getFieldProps(field).error\<close> is \<open>msg\<close>.
\<close>

lemma handleBlur_shows_first_failing_message:
  assumes rl: "map_of validationRules f = Some (pre @ r # post)"
    and pre: "\<forall>q\<in>set pre. \<exists>e. q (obj_get (form_values st) f) (form_values st) = Inr e \<and> \<not> truthy e"
    and r: "r (obj_get (form_values st) f) (form_values st) = Inr msg" and t: "truthy msg"
  shows "fst (handleBlur validationRules f st) = None"
    and "obj_get (form_touched (snd (handleBlur validationRules f st))) f = JBool True"
    and "obj_get (form_errors (snd (handleBlur validationRules f st))) f = msg"
    and "prop_error (getFieldProps f (snd (handleBlur validationRules f st))) = msg"
proof -
  have fe: "first_error (pre @ r # post) (obj_get (form_values st) f) (form_values st)
      = Inr (Some msg)"
    using first_error_first_failing[of pre "obj_get (form_values st) f" "form_values st" r msg post]
      pre r t by simp
  have hb: "handleBlur validationRules f st =
      (None, st\<lparr>form_touched := obj_set (form_touched st) f (JBool True),
                 form_errors := obj_set (form_errors st) f msg\<rparr>)"
    using rl fe by (simp add: handleBlur_def validateField_def rules_get_def Let_def)
  show "fst (handleBlur validationRules f st) = None" by (simp add: hb)
  show "obj_get (form_touched (snd (handleBlur validationRules f st))) f = JBool True"
    by (simp add: hb obj_get_set)
  show "obj_get (form_errors (snd (handleBlur validationRules f st))) f = msg"
    by (simp add: hb obj_get_set)
  show "prop_error (getFieldProps f (snd (handleBlur validationRules f st))) = msg"
    by (simp add: hb getFieldProps_def obj_get_set)
qed

text \<open>
  Claim C8 says that for every field name and every form state
  \<open>getFieldProps(field).error\<close> is the recorded error only when the field is in \<open>touched\<close>,
  and \<open>null\<close> when it is not, even if \<open>errors[field]\<close> holds a message. The code tests
  \<open>touched[name]\<close> for truth on a plain object, where the name of a member of
  \<open>Object.prototype\<close> reads as that member. For the field \<open>constructor\<close> of a form that was
  never touched and has no error recorded, the error returned is the built-in function,
  which is truthy; and with a message recorded for that field and \<open>touched\<close> still empty,
  the message is returned.
\<close>

theorem C8_untouched_inherited_name_shows_error:
  "map_of (form_touched (useForm [])) ''constructor'' = None
   \<and> map_of (form_errors (useForm [])) ''constructor'' = None
   \<and> prop_error (getFieldProps ''constructor'' (useForm [])) = JBuiltin ''constructor''
   \<and> truthy (prop_error (getFieldProps ''constructor'' (useForm [])))
   \<and> prop_error (getFieldProps ''constructor'' (useForm [])) \<noteq> JNull
   \<and> prop_error (getFieldProps ''constructor''
        \<lparr>form_values = [], form_errors = [(''constructor'', JStr ''Bad'')],
         form_touched = [], isSubmitting = False\<rparr>) = JStr ''Bad''"
  by (simp add: getFieldProps_def useForm_def obj_get_def Object_prototype_names_def
      inherited_def)

text \<open>
  Claim C4. For the handler returned by the submit wrapper: if the validation of the whole
  form fails, \<open>onSubmit\<close> is never invoked and the submitting flag is never set; if it
  passes, submitting is set to true, \<open>onSubmit(values)\<close> is invoked, and when that completes,
  by fulfilment or by an exception, the exception if any is logged and not rethrown, and
  submitting is set back to false.
\<close>

theorem C4_handleSubmit_gates_onSubmit:
  "(validateForm validationRules st = Inr (False, st') \<longrightarrow>
      outcome (handleSubmit validationRules onSubmit st) = Fulfilled
      \<and> (\<forall>ev \<in> set (trace (handleSubmit validationRules onSubmit st)).
            (\<forall>vs. ev \<noteq> OnSubmit vs) \<and> (\<forall>b. ev \<noteq> SetIsSubmitting b))
      \<and> isSubmitting (final (handleSubmit validationRules onSubmit st)) = isSubmitting st)
   \<and> (validateForm validationRules st = Inr (True, st') \<longrightarrow>
      onSubmit (form_values st)
          (st'\<lparr>form_touched := allTouched validationRules, isSubmitting := True\<rparr>) = (res, st'') \<longrightarrow>
      res \<noteq> Pending \<longrightarrow>
      outcome (handleSubmit validationRules onSubmit st) = Fulfilled
      \<and> isSubmitting (final (handleSubmit validationRules onSubmit st)) = False
      \<and> trace (handleSubmit validationRules onSubmit st) =
          [PreventDefault, SetTouched (allTouched validationRules), SetErrors (form_errors st'),
           SetIsSubmitting True, OnSubmit (form_values st)]
          @ (case res of Rejected ex \<Rightarrow> [ConsoleError ex] | _ \<Rightarrow> [])
          @ [SetIsSubmitting False])"
proof (intro conjI impI)
  assume v: "validateForm validationRules st = Inr (False, st')"
  then have hs: "handleSubmit validationRules onSubmit st =
      \<lparr>outcome = Fulfilled, final = st'\<lparr>form_touched := allTouched validationRules\<rparr>,
       trace = [PreventDefault, SetTouched (allTouched validationRules),
                SetErrors (form_errors st')]\<rparr>"
    by (simp add: handleSubmit_def validateForm_touched Let_def)
  show "outcome (handleSubmit validationRules onSubmit st) = Fulfilled" by (simp add: hs)
  show "\<forall>ev \<in> set (trace (handleSubmit validationRules onSubmit st)).
            (\<forall>vs. ev \<noteq> OnSubmit vs) \<and> (\<forall>b. ev \<noteq> SetIsSubmitting b)" by (simp add: hs)
  show "isSubmitting (final (handleSubmit validationRules onSubmit st)) = isSubmitting st"
    using validateForm_isSubmitting[OF v] by (simp add: hs)
next
  assume v: "validateForm validationRules st = Inr (True, st')"
    and cb: "onSubmit (form_values st)
          (st'\<lparr>form_touched := allTouched validationRules, isSubmitting := True\<rparr>) = (res, st'')"
    and np: "res \<noteq> Pending"
  have hs: "handleSubmit validationRules onSubmit st =
      \<lparr>outcome = Fulfilled, final = st''\<lparr>isSubmitting := False\<rparr>,
       trace = [PreventDefault, SetTouched (allTouched validationRules), SetErrors (form_errors st'),
           SetIsSubmitting True, OnSubmit (form_values st)]
          @ (case res of Rejected ex \<Rightarrow> [ConsoleError ex] | _ \<Rightarrow> [])
          @ [SetIsSubmitting False]\<rparr>"
    using v cb np by (cases res) (simp_all add: handleSubmit_def validateForm_touched Let_def)
  show "outcome (handleSubmit validationRules onSubmit st) = Fulfilled" by (simp add: hs)
  show "isSubmitting (final (handleSubmit validationRules onSubmit st)) = False" by (simp add: hs)
  show "trace (handleSubmit validationRules onSubmit st) =
          [PreventDefault, SetTouched (allTouched validationRules), SetErrors (form_errors st'),
           SetIsSubmitting True, OnSubmit (form_values st)]
          @ (case res of Rejected ex \<Rightarrow> [ConsoleError ex] | _ \<Rightarrow> [])
          @ [SetIsSubmitting False]" by (simp add: hs)
qed

text \<open>
  A form with the rule \<open>required\<close> on \<open>name\<close>: with an empty name the handler stops after
  recording the error; with a name, and an \<open>onSubmit\<close> that throws, the exception is logged,
  the handler's promise is fulfilled and the flag ends false.
\<close>

theorem C4_handleSubmit_gates_onSubmit_witness:
  "validateForm name_rules (useForm [(''name'', JStr [])])
       = Inr (False, (useForm [(''name'', JStr [])])\<lparr>form_errors := [(''name'', JStr msg_required)]\<rparr>)
   \<and> trace (handleSubmit name_rules (\<lambda>vs st. (Rejected (new_Error ''boom''), st))
              (useForm [(''name'', JStr [])]))
       = [PreventDefault, SetTouched [(''name'', JBool True)],
          SetErrors [(''name'', JStr msg_required)]]
   \<and> validateForm name_rules (useForm [(''name'', JStr ''Ana'')])
       = Inr (True, useForm [(''name'', JStr ''Ana'')])
   \<and> Rejected (new_Error ''boom'') \<noteq> Pending
   \<and> outcome (handleSubmit name_rules (\<lambda>vs st. (Rejected (new_Error ''boom''), st))
              (useForm [(''name'', JStr ''Ana'')])) = Fulfilled
   \<and> isSubmitting (final (handleSubmit name_rules (\<lambda>vs st. (Rejected (new_Error ''boom''), st))
              (useForm [(''name'', JStr ''Ana'')]))) = False
   \<and> trace (handleSubmit name_rules (\<lambda>vs st. (Rejected (new_Error ''boom''), st))
              (useForm [(''name'', JStr ''Ana'')]))
       = [PreventDefault, SetTouched [(''name'', JBool True)], SetErrors [],
          SetIsSubmitting True, OnSubmit [(''name'', JStr ''Ana'')],
          ConsoleError (new_Error ''boom''), SetIsSubmitting False]"
proof -
  let ?cb = "(\<lambda>vs st. (Rejected (new_Error ''boom''), st)) :: callback"
  let ?bad = "useForm [(''name'', JStr [])]"
  let ?ok = "useForm [(''name'', JStr ''Ana'')]"
  have at: "allTouched name_rules = [(''name'', JBool True)]"
    by (simp add: allTouched_def name_rules_def obj_set_def)
  have vb: "validateForm name_rules ?bad
      = Inr (False, ?bad\<lparr>form_errors := [(''name'', JStr msg_required)]\<rparr>)"
    by (simp add: validateForm_def name_rules_def useForm_def required_def obj_get_def
        Object_prototype_names_def
        obj_set_def msg_required_def)
  have vo: "validateForm name_rules ?ok = Inr (True, ?ok)"
    by (simp add: validateForm_def name_rules_def useForm_def required_def obj_get_def
        Object_prototype_names_def
        trim_def is_space_def)
  have tb: "trace (handleSubmit name_rules ?cb ?bad)
       = [PreventDefault, SetTouched [(''name'', JBool True)],
          SetErrors [(''name'', JStr msg_required)]]"
    using C4_handleSubmit_gates_onSubmit[of name_rules ?bad
        "?bad\<lparr>form_errors := [(''name'', JStr msg_required)]\<rparr>" ?cb] vb
    by (simp add: handleSubmit_def validateForm_touched at)
  have ok: "outcome (handleSubmit name_rules ?cb ?ok) = Fulfilled
      \<and> isSubmitting (final (handleSubmit name_rules ?cb ?ok)) = False
      \<and> trace (handleSubmit name_rules ?cb ?ok)
       = [PreventDefault, SetTouched [(''name'', JBool True)], SetErrors [],
          SetIsSubmitting True, OnSubmit [(''name'', JStr ''Ana'')],
          ConsoleError (new_Error ''boom''), SetIsSubmitting False]"
    using C4_handleSubmit_gates_onSubmit[of name_rules ?ok ?ok ?cb "Rejected (new_Error ''boom'')"
        "?ok\<lparr>form_touched := allTouched name_rules, isSubmitting := True\<rparr>"] vo
    by (simp add: at useForm_def)
  show ?thesis using vb vo tb ok by simp
qed

section \<open>The user store\<close>

lemma validateUser_isValid: "validateUser d = Inr v \<Longrightarrow> isValid v = (errors v = [])"
  by (auto simp: validateUser_def Let_def split: sum.splits)

lemma validateUser_distinct: "validateUser d = Inr v \<Longrightarrow> distinct (map fst (errors v))"
  by (auto simp: validateUser_def Let_def obj_set_distinct split: sum.splits if_splits)

lemma validateUser_keys:
  "validateUser d = Inr v \<Longrightarrow> fst ` set (errors v) \<subseteq> {''name'', ''email'', ''phone'', ''userTypes''}"
  by (auto simp: validateUser_def Let_def obj_set_keys split: sum.splits if_splits
      dest!: obj_set_key_cases)

lemma validateUser_failing_fields:
  assumes "validateUser d = Inr v"
  shows "(''name'' \<in> fst ` set (errors v)) = (not_opt_trim (obj_get d ''name'') = Inr True)
    \<and> (''email'' \<in> fst ` set (errors v)) =
           (not_opt_trim (obj_get d ''email'') = Inr True
            \<or> \<not> isValidEmail (str_of (obj_get d ''email'')))
    \<and> (''phone'' \<in> fst ` set (errors v)) =
           (not_opt_trim (obj_get d ''phone'') = Inr True
            \<or> \<not> isValidPhone (str_of (obj_get d ''phone'')))
    \<and> (''userTypes'' \<in> fst ` set (errors v)) = not_opt_length (obj_get d ''userTypes'')"
proof -
  from assms obtain a b c where
    n: "not_opt_trim (obj_get d ''name'') = Inr a"
    and e: "not_opt_trim (obj_get d ''email'') = Inr b"
    and p: "not_opt_trim (obj_get d ''phone'') = Inr c"
    by (auto simp: validateUser_def Let_def split: sum.splits)
  define e1 where "e1 = (if a then obj_set [] ''name'' (JStr msg_name) else [])"
  define e2 where "e2 =
            (if b then obj_set e1 ''email'' (JStr msg_email_required)
             else if \<not> isValidEmail (str_of (obj_get d ''email''))
               then obj_set e1 ''email'' (JStr msg_email_format)
             else e1)"
  define e3 where "e3 =
            (if c then obj_set e2 ''phone'' (JStr msg_phone_required)
             else if \<not> isValidPhone (str_of (obj_get d ''phone''))
               then obj_set e2 ''phone'' (JStr msg_phone_format)
             else e2)"
  define e4 where "e4 =
            (if not_opt_length (obj_get d ''userTypes'')
             then obj_set e3 ''userTypes'' (JStr msg_userTypes)
             else e3)"
  have "validateUser d = Inr \<lparr>isValid = (e4 = []), errors = e4\<rparr>"
    unfolding validateUser_def n e p e1_def e2_def e3_def e4_def Let_def by simp
  with assms have ev: "errors v = e4" by auto
  have k1: "fst ` set e1 = (if a then {''name''} else {})"
    by (simp add: e1_def obj_set_keys)
  have k2: "fst ` set e2 = fst ` set e1
      \<union> (if b \<or> \<not> isValidEmail (str_of (obj_get d ''email'')) then {''email''} else {})"
    by (simp add: e2_def obj_set_keys)
  have k3: "fst ` set e3 = fst ` set e2
      \<union> (if c \<or> \<not> isValidPhone (str_of (obj_get d ''phone'')) then {''phone''} else {})"
    by (simp add: e3_def obj_set_keys)
  have k4: "fst ` set e4 = fst ` set e3
      \<union> (if not_opt_length (obj_get d ''userTypes'') then {''userTypes''} else {})"
    by (simp add: e4_def obj_set_keys)
  show ?thesis
    by (simp add: ev k4 k3 k2 k1 n e p)
qed

lemma validateUser_invalid_data:
  "validateUser invalid_data = Inr \<lparr>isValid = False, errors = invalid_data_errors\<rparr>"
  by code_simp

lemma validateUser_valid_data: "validateUser valid_data = Inr \<lparr>isValid = True, errors = []\<rparr>"
  by code_simp

lemma dispatch_SET_ERROR:
  "dispatch (SET_ERROR e) p = p\<lparr>state := (state p)\<lparr>error := e, loading := False\<rparr>\<rparr>"
  by (simp add: dispatch_def)

lemma addUser_invalid:
  "validateUser d = Inr v \<Longrightarrow> \<not> isValid v \<Longrightarrow>
   addUser newId now d p =
     (Some (new_Error ''Validation failed''),
      p\<lparr>state := (state p)\<lparr>error := JObj (errors v), loading := False\<rparr>\<rparr>)"
  by (simp add: addUser_def dispatch_SET_ERROR)

lemma updateUser_invalid:
  "validateUser d = Inr v \<Longrightarrow> \<not> isValid v \<Longrightarrow>
   updateUser now uid d p =
     (Some (new_Error ''Validation failed''),
      p\<lparr>state := (state p)\<lparr>error := JObj (errors v), loading := False\<rparr>\<rparr>)"
  by (simp add: updateUser_def dispatch_SET_ERROR)

lemma updateUser_valid:
  "validateUser d = Inr v \<Longrightarrow> isValid v \<Longrightarrow>
   updateUser now uid d p =
     (None, dispatch (UPDATE_USER (obj_set (obj_set d ''id'' (JStr uid)) ''updatedAt'' (JStr now))) p)"
  by (simp add: updateUser_def)

lemma users_dispatch_UPDATE:
  "obj_get payload ''id'' = JStr uid \<Longrightarrow>
   users (state (dispatch (UPDATE_USER payload) p)) =
     map (\<lambda>u. if obj_get u ''id'' = JStr uid then payload else u) (users (state p))"
  by (simp add: dispatch_def save_users_def Let_def strict_eq_JStr)

lemma dispatch_DELETE_idem:
  "dispatch (DELETE_USER uid) (dispatch (DELETE_USER uid) p) = dispatch (DELETE_USER uid) p"
  by (simp add: dispatch_def save_users_def Let_def)

text \<open>
  What the effect leaves in the slot after an action that replaces the array: the
  serialization of the collection when that is not empty, and what was there before when
  it is empty.
\<close>

lemma slot_after_dispatch_nonempty:
  "new_users_array a \<Longrightarrow> users (state (dispatch a p)) \<noteq> [] \<Longrightarrow>
   localStorage (dispatch a p) ''crud-users''
     = Some (JSON_stringify (JArr (map JObj (users (state (dispatch a p))))))"
  by (auto simp: dispatch_def save_users_def Let_def)

lemma slot_after_dispatch_empty:
  "users (state (dispatch a p)) = [] \<Longrightarrow> localStorage (dispatch a p) = localStorage p"
  by (auto simp: dispatch_def save_users_def Let_def)

text \<open>
  Claim C9. When \<open>addUser\<close> or \<open>updateUser\<close> is called with data that fails the record-level
  validation, the error is thrown after the store's \<open>error\<close> field has been set to the
  mapping from fields to messages, which is not empty; the collection is unchanged.
\<close>

theorem C9_failed_validation_sets_error_field:
  assumes "validateUser userData = Inr v" and "\<not> isValid v"
  shows "fst (addUser newId now userData p) = Some (new_Error ''Validation failed'')
       \<and> error (state (snd (addUser newId now userData p))) = JObj (errors v)
       \<and> users (state (snd (addUser newId now userData p))) = users (state p)
       \<and> fst (updateUser now uid userData p) = Some (new_Error ''Validation failed'')
       \<and> error (state (snd (updateUser now uid userData p))) = JObj (errors v)
       \<and> users (state (snd (updateUser now uid userData p))) = users (state p)
       \<and> errors v \<noteq> []"
  using assms validateUser_isValid[OF assms(1)]
  by (simp add: addUser_invalid updateUser_invalid)

theorem C9_failed_validation_sets_error_field_witness:
  "validateUser invalid_data = Inr \<lparr>isValid = False, errors = invalid_data_errors\<rparr>
   \<and> error (state (provider_of [example_user])) = JNull
   \<and> error (state (snd (addUser ''k1'' ''2025-12-04'' invalid_data (provider_of [example_user]))))
       = JObj invalid_data_errors
   \<and> error (state (snd (updateUser ''2025-12-04'' ''1'' invalid_data (provider_of [example_user]))))
       = JObj invalid_data_errors
   \<and> users (state (snd (updateUser ''2025-12-04'' ''1'' invalid_data (provider_of [example_user]))))
       = [example_user]"
  using C9_failed_validation_sets_error_field[OF validateUser_invalid_data,
      of "''k1''" "''2025-12-04''" "provider_of [example_user]" "''1''"]
    validateUser_invalid_data
  by (simp add: provider_of_def)

text \<open>
  Claim C2, as stated: for every record failing the record-level validation, \<open>create(data)\<close>
  raises a \<open>ValidationError\<close> that carries the mapping from fields to messages, and leaves
  the collection as it was. On the record with four bad fields what is raised is not such
  an error.
\<close>

theorem C2_create_raises_ValidationError_counterexample:
  "\<not> (validateUser invalid_data = Inr \<lparr>isValid = False, errors = invalid_data_errors\<rparr>
        \<longrightarrow> raises_ValidationError
              (fst (addUser ''k1'' ''2025-12-04'' invalid_data (provider_of [example_user])))
              invalid_data_errors
          \<and> users (state (snd (addUser ''k1'' ''2025-12-04'' invalid_data
                (provider_of [example_user])))) = [example_user])"
  using addUser_invalid[OF validateUser_invalid_data, of "''k1''" "''2025-12-04''"
      "provider_of [example_user]"] validateUser_invalid_data
  by (simp add: raises_ValidationError_def new_Error_def)

text \<open>
  Claim C2, amended. For every record failing the record-level validation, \<open>addUser\<close>
  throws a plain \<open>Error\<close> with the message \<open>Validation failed\<close>, which carries no mapping;
  the mapping, which has one message for each failing field among \<open>name\<close>, \<open>email\<close>,
  \<open>phone\<close> and \<open>userTypes\<close> and none for the others, is stored in the store's \<open>error\<close>
  field; the collection and the slot are the same after the call as before it.
\<close>

theorem C2_create_throws_plain_Error:
  assumes "validateUser userData = Inr v" and "\<not> isValid v"
  shows "fst (addUser newId now userData p) = Some (new_Error ''Validation failed'')
       \<and> err_props (new_Error ''Validation failed'') = []
       \<and> \<not> raises_ValidationError (fst (addUser newId now userData p)) (errors v)
       \<and> error (state (snd (addUser newId now userData p))) = JObj (errors v)
       \<and> errors v \<noteq> [] \<and> distinct (map fst (errors v))
       \<and> fst ` set (errors v) \<subseteq> {''name'', ''email'', ''phone'', ''userTypes''}
       \<and> (''name'' \<in> fst ` set (errors v))
            = (not_opt_trim (obj_get userData ''name'') = Inr True)
       \<and> (''email'' \<in> fst ` set (errors v))
            = (not_opt_trim (obj_get userData ''email'') = Inr True
               \<or> \<not> isValidEmail (str_of (obj_get userData ''email'')))
       \<and> (''phone'' \<in> fst ` set (errors v))
            = (not_opt_trim (obj_get userData ''phone'') = Inr True
               \<or> \<not> isValidPhone (str_of (obj_get userData ''phone'')))
       \<and> (''userTypes'' \<in> fst ` set (errors v))
            = not_opt_length (obj_get userData ''userTypes'')
       \<and> users (state (snd (addUser newId now userData p))) = users (state p)
       \<and> localStorage (snd (addUser newId now userData p)) = localStorage p"
proof -
  have a: "addUser newId now userData p =
     (Some (new_Error ''Validation failed''),
      p\<lparr>state := (state p)\<lparr>error := JObj (errors v), loading := False\<rparr>\<rparr>)"
    by (rule addUser_invalid[OF assms])
  have r: "\<not> raises_ValidationError (Some (new_Error ''Validation failed'')) (errors v)"
    by (simp add: raises_ValidationError_def new_Error_def)
  have n: "errors v \<noteq> []" using assms validateUser_isValid[OF assms(1)] by simp
  show ?thesis
    unfolding a fst_conv snd_conv
    using r n validateUser_distinct[OF assms(1)] validateUser_keys[OF assms(1)]
      validateUser_failing_fields[OF assms(1)]
    by (simp add: new_Error_def)
qed

theorem C2_create_throws_plain_Error_witness:
  "validateUser invalid_data = Inr \<lparr>isValid = False, errors = invalid_data_errors\<rparr>
   \<and> fst (addUser ''k1'' ''2025-12-04'' invalid_data (provider_of [example_user]))
       = Some (JsError ''Error'' ''Validation failed'' [])
   \<and> error (state (snd (addUser ''k1'' ''2025-12-04'' invalid_data (provider_of [example_user]))))
       = JObj invalid_data_errors
   \<and> users (state (snd (addUser ''k1'' ''2025-12-04'' invalid_data (provider_of [example_user]))))
       = [example_user]"
  using C2_create_throws_plain_Error[OF validateUser_invalid_data,
      of "''k1''" "''2025-12-04''" "provider_of [example_user]"]
    validateUser_invalid_data
  by (simp add: provider_of_def new_Error_def)

text \<open>
  Claim C7. \<open>delete(id)\<close> is idempotent: applying it twice leaves the provider, and so the
  collection, as applying it once does; it removes the records with that identifier and no
  others; and when no record has the identifier the collection is unchanged and nothing is
  thrown.
\<close>

theorem C7_deleteUser_idempotent:
  "deleteUser uid (snd (deleteUser uid p)) = deleteUser uid p
   \<and> fst (deleteUser uid p) = None
   \<and> users (state (snd (deleteUser uid p)))
       = filter (\<lambda>u. obj_get u ''id'' \<noteq> JStr uid) (users (state p))
   \<and> ((\<forall>u \<in> set (users (state p)). obj_get u ''id'' \<noteq> JStr uid) \<longrightarrow>
        users (state (snd (deleteUser uid p))) = users (state p))"
proof (intro conjI impI)
  show "deleteUser uid (snd (deleteUser uid p)) = deleteUser uid p"
    by (simp add: deleteUser_def dispatch_DELETE_idem)
  show "fst (deleteUser uid p) = None" by (simp add: deleteUser_def)
  show f: "users (state (snd (deleteUser uid p)))
      = filter (\<lambda>u. obj_get u ''id'' \<noteq> JStr uid) (users (state p))"
    by (simp add: deleteUser_def dispatch_def save_users_def Let_def strict_eq_JStr)
  assume "\<forall>u \<in> set (users (state p)). obj_get u ''id'' \<noteq> JStr uid"
  then show "users (state (snd (deleteUser uid p))) = users (state p)"
    by (simp add: f)
qed

theorem C7_deleteUser_idempotent_witness:
  "obj_get example_user ''id'' \<noteq> JStr ''7'' \<and> obj_get other_user ''id'' \<noteq> JStr ''7''
   \<and> fst (deleteUser ''7'' (provider_of [example_user, other_user])) = None
   \<and> users (state (snd (deleteUser ''7'' (provider_of [example_user, other_user]))))
       = [example_user, other_user]
   \<and> users (state (snd (deleteUser ''1'' (provider_of [example_user, other_user]))))
       = [other_user]
   \<and> users (state (snd (deleteUser ''1''
        (snd (deleteUser ''1'' (provider_of [example_user, other_user]))))))
       = [other_user]"
proof -
  have ids: "obj_get example_user ''id'' = JStr ''1''" "obj_get other_user ''id'' = JStr ''2''"
    by (simp_all add: obj_get_def Object_prototype_names_def example_user_def other_user_def)
  have a: "\<forall>u \<in> set [example_user, other_user]. obj_get u ''id'' \<noteq> JStr ''7''"
    by (simp add: ids)
  have s: "users (state (provider_of [example_user, other_user])) = [example_user, other_user]"
    by (simp add: provider_of_def)
  show ?thesis
    using C7_deleteUser_idempotent[of "''7''" "provider_of [example_user, other_user]"]
      C7_deleteUser_idempotent[of "''1''" "provider_of [example_user, other_user]"] a
    by (simp add: s ids)
qed

text \<open>
  Claim C5. For every valid data record, \<open>update(id, data)\<close> throws nothing and keeps the
  length and order of the collection; every record whose identifier differs from \<open>id\<close> is
  left exactly as it was; every record whose identifier is \<open>id\<close> is replaced by the record
  built from \<open>data\<close>: its \<open>id\<close> is \<open>id\<close> whatever \<open>data\<close> holds under that name, its \<open>updatedAt\<close>
  is the new timestamp, every other field is as in \<open>data\<close>, and it has no field beyond
  those of \<open>data\<close> and these two, so that a field of the old record that \<open>data\<close> lacks is
  dropped; if no record has the identifier, the collection is unchanged.
\<close>

theorem C5_updateUser_replaces_wholesale:
  assumes "validateUser userData = Inr v" and "isValid v"
  shows "fst (updateUser now uid userData p) = None
     \<and> length (users (state (snd (updateUser now uid userData p)))) = length (users (state p))
     \<and> (\<forall>i < length (users (state p)).
          (obj_get (users (state p) ! i) ''id'' \<noteq> JStr uid \<longrightarrow>
             users (state (snd (updateUser now uid userData p))) ! i = users (state p) ! i)
        \<and> (obj_get (users (state p) ! i) ''id'' = JStr uid \<longrightarrow>
             obj_get (users (state (snd (updateUser now uid userData p))) ! i) ''id'' = JStr uid
           \<and> obj_get (users (state (snd (updateUser now uid userData p))) ! i) ''updatedAt''
               = JStr now
           \<and> (\<forall>k. k \<noteq> ''id'' \<longrightarrow> k \<noteq> ''updatedAt'' \<longrightarrow>
                obj_get (users (state (snd (updateUser now uid userData p))) ! i) k
                  = obj_get userData k)
           \<and> fst ` set (users (state (snd (updateUser now uid userData p))) ! i)
                = fst ` set userData \<union> {''id'', ''updatedAt''}))
     \<and> ((\<forall>u \<in> set (users (state p)). obj_get u ''id'' \<noteq> JStr uid) \<longrightarrow>
          users (state (snd (updateUser now uid userData p))) = users (state p))"
proof -
  let ?new = "obj_set (obj_set userData ''id'' (JStr uid)) ''updatedAt'' (JStr now)"
  have nid: "obj_get ?new ''id'' = JStr uid" by (simp add: obj_get_set)
  have us: "users (state (snd (updateUser now uid userData p))) =
      map (\<lambda>u. if obj_get u ''id'' = JStr uid then ?new else u) (users (state p))"
    by (simp add: updateUser_valid[OF assms] users_dispatch_UPDATE[OF nid])
  show ?thesis
  proof (intro conjI allI impI)
    show "fst (updateUser now uid userData p) = None" by (simp add: updateUser_valid[OF assms])
    show "length (users (state (snd (updateUser now uid userData p)))) = length (users (state p))"
      by (simp add: us)
  next
    fix i assume "i < length (users (state p))" "obj_get (users (state p) ! i) ''id'' \<noteq> JStr uid"
    then show "users (state (snd (updateUser now uid userData p))) ! i = users (state p) ! i"
      by (simp add: us)
  next
    fix i assume i: "i < length (users (state p))" "obj_get (users (state p) ! i) ''id'' = JStr uid"
    then have e: "users (state (snd (updateUser now uid userData p))) ! i = ?new" by (simp add: us)
    show "obj_get (users (state (snd (updateUser now uid userData p))) ! i) ''id'' = JStr uid"
      by (simp add: e obj_get_set)
    show "obj_get (users (state (snd (updateUser now uid userData p))) ! i) ''updatedAt'' = JStr now"
      by (simp add: e obj_get_set)
    show "fst ` set (users (state (snd (updateUser now uid userData p))) ! i)
                = fst ` set userData \<union> {''id'', ''updatedAt''}"
      by (auto simp add: e obj_set_keys)
    fix k assume "k \<noteq> ''id''" "k \<noteq> ''updatedAt''"
    then show "obj_get (users (state (snd (updateUser now uid userData p))) ! i) k
        = obj_get userData k"
      by (simp add: e obj_get_set)
  next
    assume "\<forall>u \<in> set (users (state p)). obj_get u ''id'' \<noteq> JStr uid"
    then show "users (state (snd (updateUser now uid userData p))) = users (state p)"
      by (simp add: us map_idI)
  qed
qed

text \<open>
  Updating the record \<open>1\<close> of a collection of two with data that has no \<open>createdAt\<close>: the
  new record has the identifier, the timestamp and the name of the data and no
  \<open>createdAt\<close>, the other record stays; updating an identifier that no record has changes
  nothing.
\<close>

theorem C5_updateUser_replaces_wholesale_witness:
  "validateUser valid_data = Inr \<lparr>isValid = True, errors = []\<rparr>
   \<and> obj_get example_user ''id'' = JStr ''1'' \<and> obj_get other_user ''id'' \<noteq> JStr ''1''
   \<and> obj_get example_user ''createdAt'' = JStr ''2025-10-03T00:00:00.000Z''
   \<and> fst (updateUser ''2025-12-04'' ''1'' valid_data (provider_of [example_user, other_user]))
       = None
   \<and> obj_get (users (state (snd (updateUser ''2025-12-04'' ''1'' valid_data
        (provider_of [example_user, other_user])))) ! 0) ''id'' = JStr ''1''
   \<and> obj_get (users (state (snd (updateUser ''2025-12-04'' ''1'' valid_data
        (provider_of [example_user, other_user])))) ! 0) ''updatedAt'' = JStr ''2025-12-04''
   \<and> obj_get (users (state (snd (updateUser ''2025-12-04'' ''1'' valid_data
        (provider_of [example_user, other_user])))) ! 0) ''name'' = JStr ''Ana''
   \<and> obj_get (users (state (snd (updateUser ''2025-12-04'' ''1'' valid_data
        (provider_of [example_user, other_user])))) ! 0) ''createdAt'' = JUndefined
   \<and> users (state (snd (updateUser ''2025-12-04'' ''1'' valid_data
        (provider_of [example_user, other_user])))) ! 1 = other_user
   \<and> obj_get example_user ''id'' \<noteq> JStr ''7'' \<and> obj_get other_user ''id'' \<noteq> JStr ''7''
   \<and> users (state (snd (updateUser ''2025-12-04'' ''7'' valid_data
        (provider_of [example_user, other_user]))))
       = [example_user, other_user]"
proof -
  let ?p = "provider_of [example_user, other_user]"
  note T = C5_updateUser_replaces_wholesale[OF validateUser_valid_data,
        of "''2025-12-04''" "''1''" ?p]
  have ids: "obj_get example_user ''id'' = JStr ''1''" "obj_get other_user ''id'' = JStr ''2''"
    by (simp_all add: obj_get_def Object_prototype_names_def example_user_def other_user_def)
  have s: "users (state ?p) = [example_user, other_user]" by (simp add: provider_of_def)
  have c: "obj_get example_user ''createdAt'' = JStr ''2025-10-03T00:00:00.000Z''"
    by (simp add: obj_get_def Object_prototype_names_def example_user_def)
  have d: "obj_get valid_data ''createdAt'' = JUndefined" "obj_get valid_data ''name'' = JStr ''Ana''"
    by (simp_all add: obj_get_def Object_prototype_names_def valid_data_def)
  have r: "fst (updateUser ''2025-12-04'' ''1'' valid_data ?p) = None"
    using T by simp
  have u0: "obj_get (users (state (snd (updateUser ''2025-12-04'' ''1'' valid_data ?p))) ! 0) ''id''
        = JStr ''1''
      \<and> obj_get (users (state (snd (updateUser ''2025-12-04'' ''1'' valid_data ?p))) ! 0)
          ''updatedAt'' = JStr ''2025-12-04''
      \<and> obj_get (users (state (snd (updateUser ''2025-12-04'' ''1'' valid_data ?p))) ! 0) ''name''
        = JStr ''Ana''
      \<and> obj_get (users (state (snd (updateUser ''2025-12-04'' ''1'' valid_data ?p))) ! 0)
          ''createdAt'' = JUndefined"
    using T[THEN conjunct2, THEN conjunct2, THEN conjunct1, rule_format, of 0]
    by (simp add: s ids d)
  have u1: "users (state (snd (updateUser ''2025-12-04'' ''1'' valid_data ?p))) ! 1 = other_user"
    using T[THEN conjunct2, THEN conjunct2, THEN conjunct1, rule_format, of 1]
    by (simp add: s ids)
  have u7: "users (state (snd (updateUser ''2025-12-04'' ''7'' valid_data ?p)))
      = [example_user, other_user]"
    using C5_updateUser_replaces_wholesale[OF validateUser_valid_data,
        of "''2025-12-04''" "''7''" ?p]
    by (simp add: s ids)
  show ?thesis using validateUser_valid_data c r u0 u1 u7 by (simp add: ids)
qed

section \<open>Persistence\<close>

text \<open>
  Claim C1 says that after every mutating operation the slot holds the serialization of
  the current collection, also when a delete leaves the collection empty. The effect
  writes only a collection that is not empty: after the only record is deleted, the
  collection is empty and the slot still holds the serialization of the deleted record,
  which is not the serialization of the empty collection.
\<close>

theorem C1_delete_last_user_leaves_slot_stale:
  "localStorage (save_users (provider_of [example_user])) ''crud-users''
      = Some (JSON_stringify (JArr [JObj example_user]))
   \<and> users (state (snd (deleteUser ''1'' (save_users (provider_of [example_user]))))) = []
   \<and> localStorage (snd (deleteUser ''1'' (save_users (provider_of [example_user])))) ''crud-users''
      = Some (JSON_stringify (JArr [JObj example_user]))
   \<and> JSON_stringify (JArr [JObj example_user]) \<noteq> JSON_stringify (JArr (map JObj []))"
proof -
  have i: "obj_get example_user ''id'' = JStr ''1''"
    by (simp add: obj_get_def Object_prototype_names_def example_user_def)
  have a: "localStorage (save_users (provider_of [example_user])) ''crud-users''
      = Some (JSON_stringify (JArr [JObj example_user]))"
    by (simp add: save_users_def provider_of_def)
  have u: "users (state (snd (deleteUser ''1'' (save_users (provider_of [example_user]))))) = []"
    by (simp add: deleteUser_def dispatch_def save_users_def provider_of_def i)
  have b: "localStorage (snd (deleteUser ''1'' (save_users (provider_of [example_user]))))
      = localStorage (save_users (provider_of [example_user]))"
    using u by (simp add: deleteUser_def slot_after_dispatch_empty)
  have "JSON_stringify (JArr [JObj example_user]) \<noteq> ''[]''"
    by (simp add: example_user_def)
  then have c: "JSON_stringify (JArr [JObj example_user]) \<noteq> JSON_stringify (JArr (map JObj []))"
    by simp
  show ?thesis using a u b c by simp
qed

end
